theory Spec2Isabelle
  imports Complex_Main "HOL-Library.Char_ord" "HOL-Library.List_Lexorder" "HOL-Library.Log_Nat"
begin

section \<open>Python values used by the analysis module\<close>

text \<open>
  Strings are lists of characters, a character being a code point below 256; names
  with other code points are outside the model. Python compares strings
  lexicographically by code point, which is the order of
  \<^theory_text>\<open>List_Lexorder\<close> over \<^theory_text>\<open>Char_ord\<close>.

  A Python \<open>dict\<close> keeps its keys in insertion order, so it is an association list
  with distinct keys. Assigning to a key that is present replaces the value in place;
  assigning to a new key appends the entry.
\<close>

type_synonym ('k, 'v) dict = "('k \<times> 'v) list"

fun dict_set :: "('k, 'v) dict \<Rightarrow> 'k \<Rightarrow> 'v \<Rightarrow> ('k, 'v) dict" where
  "dict_set [] k v = [(k, v)]"
| "dict_set ((k', v') # d) k v =
     (if k' = k then (k, v) # d else (k', v') # dict_set d k v)"

definition dict_keys :: "('k, 'v) dict \<Rightarrow> 'k list" where
  "dict_keys d = map fst d"

definition dict_get :: "('k, 'v) dict \<Rightarrow> 'k \<Rightarrow> 'v option" where
  "dict_get d k = map_of d k"

definition is_dict :: "('k, 'v) dict \<Rightarrow> bool" where
  "is_dict d = distinct (map fst d)"

datatype error = KeyError string | ValueError

text \<open>
  A numpy array is its shape and its elements in row-major order. Pixel values of the
  source rasters have an arbitrary element type \<open>'p\<close>; \<open>astype(float)\<close> is the
  conversion \<open>to_float\<close> of that type into the floating-point numbers, which are
  modelled by the reals (rounding and overflow are outside the model). A quotient
  whose divisor is zero is not a finite number in numpy (\<open>inf\<close> or \<open>nan\<close>, with a
  warning and no exception): it is \<open>None\<close> here.
\<close>

record 'a ndarray =
  shape :: "nat list"
  elems :: "'a list"

definition wf_ndarray :: "'a ndarray \<Rightarrow> bool" where
  "wf_ndarray a = (length (elems a) = prod_list (shape a))"

definition astype :: "('a \<Rightarrow> 'b) \<Rightarrow> 'a ndarray \<Rightarrow> 'b ndarray" where
  "astype conv a = \<lparr>shape = shape a, elems = map conv (elems a)\<rparr>"

definition nd_map :: "('a \<Rightarrow> 'b) \<Rightarrow> 'a ndarray \<Rightarrow> 'b ndarray" where
  "nd_map f a = \<lparr>shape = shape a, elems = map f (elems a)\<rparr>"

text \<open>Elementwise binary operation on two arrays of the same shape.\<close>

definition nd_map2 :: "('a \<Rightarrow> 'b \<Rightarrow> 'c) \<Rightarrow> 'a ndarray \<Rightarrow> 'b ndarray \<Rightarrow> 'c ndarray" where
  "nd_map2 f a b = \<lparr>shape = shape a, elems = map2 f (elems a) (elems b)\<rparr>"

definition np_abs :: "real ndarray \<Rightarrow> real ndarray" where
  "np_abs a = nd_map abs a"

definition np_sum :: "real ndarray \<Rightarrow> real" where
  "np_sum a = sum_list (elems a)"

text \<open>\<open>np.mean\<close> is the sum divided by the number of elements.\<close>

definition np_mean :: "real ndarray \<Rightarrow> real" where
  "np_mean a = sum_list (elems a) / real (length (elems a))"

text \<open>\<open>np.max\<close> raises \<open>ValueError\<close> on an array without elements.\<close>

definition np_max :: "real ndarray \<Rightarrow> real option" where
  "np_max a = (case elems a of [] \<Rightarrow> None | x # xs \<Rightarrow> Some (fold max xs x))"

definition float_div :: "real \<Rightarrow> real \<Rightarrow> real option" where
  "float_div x y = (if y = 0 then None else Some (x / y))"

section \<open>The change detector: \<open>compare_images\<close>\<close>

record ('p, 'm) image =
  data :: "'p ndarray"
  metadata :: 'm

record change_result =
  difference :: "real ndarray"
  abs_difference :: "real ndarray"
  percentage_change :: "real option ndarray"
  total_difference :: real
  mean_difference :: real
  max_difference :: real
  date1 :: string
  date2 :: string

text \<open>The lines printed by the module, with the values they show.\<close>

datatype msg =
    NeedTwoImages
  | WarnDifferentShapes string string
  | ShapeOf string "nat list"
  | ComparisonFromTo string string
  | TotalAbsoluteChange real
  | MeanAbsoluteChange real
  | MaximumAbsoluteChange real
  | VolumeEstimationFor string
  | MaterialRemoved real
  | MaterialAdded real
  | NetChange real
  | NoTiffFilesFound string
  | FoundTiffFiles nat
  | CouldNotExtractDate string
  | ErrorExtractingDate string
  | LoadedImage string "nat list"
  | ErrorLoading string

definition epsilon :: real where
  "epsilon = 1 / 10 ^ 10"

definition period_key :: "string \<Rightarrow> string \<Rightarrow> string" where
  "period_key d1 d2 = d1 @ ''_to_'' @ d2"

text \<open>
  The body of one iteration for two arrays of the same shape (lines 117 to 143):
  \<open>None\<close> is the \<open>ValueError\<close> of \<open>np.max\<close>, which is raised after the sum and the
  mean have been computed and before anything is stored or printed.
\<close>

definition compare_pair ::
  "('p \<Rightarrow> real) \<Rightarrow> string \<Rightarrow> string \<Rightarrow> 'p ndarray \<Rightarrow> 'p ndarray \<Rightarrow> change_result option" where
  "compare_pair to_float d1 d2 image1 image2 =
     (let diff = nd_map2 (\<lambda>x y. x - y) (astype to_float image2) (astype to_float image1);
          abs_diff = np_abs diff;
          pct = nd_map (map_option (\<lambda>q. q * 100))
                  (nd_map2 float_div diff
                     (nd_map (\<lambda>x. x + epsilon) (astype to_float image1)));
          total = np_sum abs_diff;
          mean = np_mean abs_diff
      in case np_max abs_diff of
           None \<Rightarrow> None
         | Some mx \<Rightarrow>
             Some \<lparr>difference = diff, abs_difference = abs_diff, percentage_change = pct,
                   total_difference = total, mean_difference = mean, max_difference = mx,
                   date1 = d1, date2 = d2\<rparr>)"

text \<open>
  The loop \<open>for i in range(len(dates) - 1)\<close> reads \<open>dates[i]\<close> and \<open>dates[i + 1]\<close>:
  it walks the adjacent pairs of the sorted list. The printed lines and the results
  accumulated so far are threaded through; an exception ends the run and keeps what
  was printed.
\<close>

fun compare_loop ::
  "('p \<Rightarrow> real) \<Rightarrow> (string, ('p, 'm) image) dict \<Rightarrow> string list \<Rightarrow> msg list \<Rightarrow>
   (string, change_result) dict \<Rightarrow> msg list \<times> (error + (string, change_result) dict)" where
  "compare_loop to_float image_dict (d1 # d2 # dates) out results =
     (case dict_get image_dict d1 of
        None \<Rightarrow> (out, Inl (KeyError d1))
      | Some e1 \<Rightarrow>
     (case dict_get image_dict d2 of
        None \<Rightarrow> (out, Inl (KeyError d2))
      | Some e2 \<Rightarrow>
        if shape (data e1) \<noteq> shape (data e2) then
          compare_loop to_float image_dict (d2 # dates)
            (out @ [WarnDifferentShapes d1 d2, ShapeOf d1 (shape (data e1)),
                    ShapeOf d2 (shape (data e2))])
            results
        else
          (case compare_pair to_float d1 d2 (data e1) (data e2) of
             None \<Rightarrow> (out, Inl ValueError)
           | Some r \<Rightarrow>
               compare_loop to_float image_dict (d2 # dates)
                 (out @ [ComparisonFromTo d1 d2, TotalAbsoluteChange (total_difference r),
                         MeanAbsoluteChange (mean_difference r),
                         MaximumAbsoluteChange (max_difference r)])
                 (dict_set results (period_key d1 d2) r))))"
| "compare_loop to_float image_dict dates out results = (out, Inr results)"

text \<open>
  \<open>compare_images\<close> returns \<open>None\<close> (the bare \<open>return\<close>) when the dictionary has
  fewer than two entries, and the results dictionary otherwise.
\<close>

definition compare_images ::
  "('p \<Rightarrow> real) \<Rightarrow> (string, ('p, 'm) image) dict \<Rightarrow>
   msg list \<times> (error + (string, change_result) dict option)" where
  "compare_images to_float image_dict =
     (if length image_dict < 2 then ([NeedTwoImages], Inr None)
      else
        (case compare_loop to_float image_dict (sort (dict_keys image_dict)) [] [] of
           (out, Inl e) \<Rightarrow> (out, Inl e)
         | (out, Inr results) \<Rightarrow> (out, Inr (Some results))))"

section \<open>The volume estimator: \<open>estimate_volume_changes\<close>\<close>

record volume_estimate =
  material_removed_m3 :: real
  material_added_m3 :: real
  net_change_m3 :: real

text \<open>
  The body of the loop for one period (lines 202 to 224), with the products, the sums
  and the difference read as the exact operations on the reals. Indexing an array with
  a boolean mask selects the elements where the mask holds, in order.
\<close>

definition estimate_period :: "real \<Rightarrow> change_result \<Rightarrow> volume_estimate" where
  "estimate_period pixel_area dat =
     (let volume_change_per_pixel = nd_map (\<lambda>x. x * pixel_area) (difference dat);
          material_removed = - sum_list (filter (\<lambda>v. v < 0) (elems volume_change_per_pixel));
          material_added = sum_list (filter (\<lambda>v. v > 0) (elems volume_change_per_pixel));
          net_change = material_added - material_removed
      in \<lparr>material_removed_m3 = material_removed, material_added_m3 = material_added,
          net_change_m3 = net_change\<rparr>)"

fun estimate_loop ::
  "real \<Rightarrow> (string, change_result) dict \<Rightarrow> msg list \<Rightarrow> (string, volume_estimate) dict \<Rightarrow>
   msg list \<times> (string, volume_estimate) dict" where
  "estimate_loop pixel_area [] out volume_estimates = (out, volume_estimates)"
| "estimate_loop pixel_area ((period, dat) # items) out volume_estimates =
     (let v = estimate_period pixel_area dat
      in estimate_loop pixel_area items
           (out @ [VolumeEstimationFor period, MaterialRemoved (material_removed_m3 v),
                   MaterialAdded (material_added_m3 v), NetChange (net_change_m3 v)])
           (dict_set volume_estimates period v))"

definition estimate_volume_changes ::
  "(string, change_result) dict \<Rightarrow> real \<Rightarrow> msg list \<times> (string, volume_estimate) dict" where
  "estimate_volume_changes results pixel_area = estimate_loop pixel_area results [] []"

section \<open>The volume estimator in floating-point arithmetic\<close>

text \<open>
  The arrays of the estimator hold binary64 numbers, and each product, sum and
  difference of lines 209 to 218 is rounded. \<open>round_double\<close> is the rounding of
  binary64: to the nearest number with 53 significant bits (a multiple of
  \<open>2 ^ (e - 52)\<close> for a value of magnitude in \<open>[2 ^ e, 2 ^ (e + 1))\<close>, and of
  \<open>2 ^ -1074\<close> below \<open>2 ^ -1022\<close>), a value half way between two of them going to
  the one with the even significand. Values beyond the largest binary64 number, which
  round to infinity, and \<open>nan\<close> are outside the model.
\<close>

definition round_half_even :: "real \<Rightarrow> int" where
  "round_half_even x =
     (let f = \<lfloor>x\<rfloor>; r = x - of_int f
      in if r < 1 / 2 then f
         else if 1 / 2 < r then f + 1
         else if even f then f else f + 1)"

text \<open>The exponent \<open>e\<close> with \<open>2 ^ e \<le> \<bar>x\<bar> < 2 ^ (e + 1)\<close>, for \<open>x\<close> other than zero.\<close>

definition binade :: "real \<Rightarrow> int" where
  "binade x =
     (if 1 \<le> \<bar>x\<bar> then bitlen \<lfloor>\<bar>x\<bar>\<rfloor> - 1 else - bitlen (\<lceil>1 / \<bar>x\<bar>\<rceil> - 1))"

definition round_double :: "real \<Rightarrow> real" where
  "round_double x =
     (if x = 0 then 0
      else (let q = 2 powi (max (binade x) (- 1022) - 52)
            in of_int (round_half_even (x / q)) * q))"

text \<open>
  The operations the estimator performs on floating-point numbers: the product of two
  numbers, the difference of two numbers, and \<open>np.sum\<close> of an array. Negation and
  the comparisons with zero are exact.
\<close>

record float_ops =
  fl_mul :: "real \<Rightarrow> real \<Rightarrow> real"
  fl_sub :: "real \<Rightarrow> real \<Rightarrow> real"
  fl_sum :: "real list \<Rightarrow> real"

text \<open>Exact arithmetic, and binary64 arithmetic with the running sum from left to right
  (the order of \<open>np.sum\<close> for an array of fewer than eight elements; longer arrays
  are added in blocks, each addition rounded as here).\<close>

definition exact_ops :: float_ops where
  "exact_ops = \<lparr>fl_mul = (\<lambda>x y. x * y), fl_sub = (\<lambda>x y. x - y), fl_sum = sum_list\<rparr>"

definition binary64_ops :: float_ops where
  "binary64_ops =
     \<lparr>fl_mul = (\<lambda>x y. round_double (x * y)),
      fl_sub = (\<lambda>x y. round_double (x - y)),
      fl_sum = foldl (\<lambda>s x. round_double (s + x)) 0\<rparr>"

text \<open>Lines 202 to 224 and the loop around them, over the operations \<open>ops\<close>.\<close>

definition estimate_period_float ::
  "float_ops \<Rightarrow> real \<Rightarrow> change_result \<Rightarrow> volume_estimate" where
  "estimate_period_float ops pixel_area dat =
     (let volume_change_per_pixel = nd_map (\<lambda>x. fl_mul ops x pixel_area) (difference dat);
          material_removed =
            - fl_sum ops (filter (\<lambda>v. v < 0) (elems volume_change_per_pixel));
          material_added = fl_sum ops (filter (\<lambda>v. v > 0) (elems volume_change_per_pixel));
          net_change = fl_sub ops material_added material_removed
      in \<lparr>material_removed_m3 = material_removed, material_added_m3 = material_added,
          net_change_m3 = net_change\<rparr>)"

fun estimate_loop_float ::
  "float_ops \<Rightarrow> real \<Rightarrow> (string, change_result) dict \<Rightarrow> msg list \<Rightarrow>
   (string, volume_estimate) dict \<Rightarrow> msg list \<times> (string, volume_estimate) dict" where
  "estimate_loop_float ops pixel_area [] out volume_estimates = (out, volume_estimates)"
| "estimate_loop_float ops pixel_area ((period, dat) # items) out volume_estimates =
     (let v = estimate_period_float ops pixel_area dat
      in estimate_loop_float ops pixel_area items
           (out @ [VolumeEstimationFor period, MaterialRemoved (material_removed_m3 v),
                   MaterialAdded (material_added_m3 v), NetChange (net_change_m3 v)])
           (dict_set volume_estimates period v))"

definition estimate_volume_changes_float ::
  "float_ops \<Rightarrow> (string, change_result) dict \<Rightarrow> real \<Rightarrow>
   msg list \<times> (string, volume_estimate) dict" where
  "estimate_volume_changes_float ops results pixel_area =
     estimate_loop_float ops pixel_area results [] []"

section \<open>The raster loader: \<open>load_images_from_directory\<close>\<close>

text \<open>
  What the loader takes from its surroundings: the names in a directory (none when
  it cannot be listed), the directories a directory pattern with wildcard characters
  expands to, the case normalisation of \<open>fnmatch\<close> (\<open>os.path.normcase\<close>: the
  identity on POSIX systems, lower case on Windows), \<open>datetime.strptime\<close> (\<open>None\<close>
  is its \<open>ValueError\<close>),
  the creation time of a file, \<open>strftime('%Y-%m-%d')\<close>, and the raster decoder
  (\<open>None\<close> is any exception of \<open>rasterio.open\<close> or \<open>read\<close>).
\<close>

record ('dt, 'p, 'g) env =
  listdir :: "string \<Rightarrow> string list"
  glob_dirs :: "string \<Rightarrow> string list"
  normcase :: "string \<Rightarrow> string"
  strptime :: "string \<Rightarrow> string \<Rightarrow> 'dt option"
  getctime :: "string \<Rightarrow> 'dt"
  strftime :: "'dt \<Rightarrow> string"
  rasterio_read :: "string \<Rightarrow> ('p ndarray \<times> 'g) option"

record 'g metadata_rec =
  georef :: 'g
  file_path :: string

definition endswith :: "string \<Rightarrow> string \<Rightarrow> bool" where
  "endswith s suf = (length suf \<le> length s \<and> drop (length s - length suf) s = suf)"

definition is_hidden :: "string \<Rightarrow> bool" where
  "is_hidden name = (case name of [] \<Rightarrow> False | c # _ \<Rightarrow> c = CHR ''.'')"

definition path_join :: "string \<Rightarrow> string \<Rightarrow> string" where
  "path_join directory name =
     (if directory = [] then name
      else if last directory = CHR ''/'' then directory @ name
      else directory @ ''/'' @ name)"

text \<open>
  \<open>glob.glob(os.path.join(directory, "*" + suf))\<close>. The pattern is split into its
  directory part (the directory without its trailing slashes, unless it is nothing but
  slashes) and the name pattern. A directory part with one of the wildcard characters
  \<open>*\<close>, \<open>?\<close>, \<open>[\<close> is expanded to the directories it matches; otherwise it is
  the one directory searched. Of each directory the names are taken that do not start
  with a dot and that \<open>fnmatch\<close> matches against the name pattern, each joined to
  its directory. The pattern \<open>*.tif\<close> matches a name that ends with \<open>.tif\<close>, both
  taken through \<open>normcase\<close>.
\<close>

definition glob_dirname :: "string \<Rightarrow> string" where
  "glob_dirname directory =
     (let head = rev (dropWhile (\<lambda>c. c = CHR ''/'') (rev directory))
      in if head = [] then directory else head)"

definition has_magic :: "string \<Rightarrow> bool" where
  "has_magic s = list_ex (\<lambda>c. c \<in> set ''*?['') s"

definition glob_star :: "('dt, 'p, 'g) env \<Rightarrow> string \<Rightarrow> string \<Rightarrow> string list" where
  "glob_star e directory suf =
     (let dirname = glob_dirname directory;
          dirs = (if has_magic dirname then glob_dirs e dirname else [dirname])
      in concat
           (map (\<lambda>d. map (path_join d)
                    (filter (\<lambda>name. \<not> is_hidden name \<and>
                                    endswith (normcase e name) (normcase e suf))
                       (listdir e d)))
              dirs))"

definition find_tiff_files :: "('dt, 'p, 'g) env \<Rightarrow> string \<Rightarrow> string list" where
  "find_tiff_files e directory = glob_star e directory ''.tif'' @ glob_star e directory ''.tiff''"

text \<open>\<open>Path(p).name\<close> and \<open>Path(p).stem\<close>.\<close>

definition path_name :: "string \<Rightarrow> string" where
  "path_name p = rev (takeWhile (\<lambda>c. c \<noteq> CHR ''/'') (rev p))"

definition stem :: "string \<Rightarrow> string" where
  "stem p =
     (let name = path_name p;
          suf = takeWhile (\<lambda>c. c \<noteq> CHR ''.'') (rev name);
          i = length name - length suf - 1
      in if length suf < length name \<and> 0 < i \<and> suf \<noteq> [] then take i name else name)"

fun split :: "string \<Rightarrow> char \<Rightarrow> string list" where
  "split [] sep = [[]]"
| "split (c # cs) sep =
     (if c = sep then [] # split cs sep
      else (case split cs sep of
              [] \<Rightarrow> [[c]]
            | part # parts \<Rightarrow> (c # part) # parts))"

text \<open>
  \<open>str.isdigit\<close>: a string that is not empty and has only digits. Below code point
  256 the digits are \<open>0\<close> to \<open>9\<close> and the superscripts two, three and one.
\<close>

definition isdigit :: "string \<Rightarrow> bool" where
  "isdigit s =
     (s \<noteq> [] \<and>
      list_all (\<lambda>c. c \<in> set ''0123456789'' \<or> c \<in> set [CHR 0xB2, CHR 0xB3, CHR 0xB9]) s)"

definition is_yyyymmdd :: "string \<Rightarrow> bool" where
  "is_yyyymmdd part = (length part = 8 \<and> isdigit part)"

definition is_yyyy_mm_dd :: "string \<Rightarrow> bool" where
  "is_yyyy_mm_dd part = (length part = 10 \<and> count_list part (CHR ''-'') = 2)"

text \<open>
  The scan of the parts (lines 39 to 47): the part at which the loop stops, with the
  format \<open>strptime\<close> is given; \<open>None\<close> when the loop runs to its \<open>else\<close>.
\<close>

fun select_date_part :: "string list \<Rightarrow> (string \<times> string) option" where
  "select_date_part [] = None"
| "select_date_part (part # parts) =
     (if is_yyyymmdd part then Some (part, ''%Y%m%d'')
      else if is_yyyy_mm_dd part then Some (part, ''%Y-%m-%d'')
      else select_date_part parts)"

definition extract_date ::
  "('dt, 'p, 'g) env \<Rightarrow> string \<Rightarrow> string \<Rightarrow> 'dt \<times> msg list" where
  "extract_date e tiff_file filename =
     (case select_date_part (split filename (CHR ''_'')) of
        None \<Rightarrow> (getctime e tiff_file, [CouldNotExtractDate filename])
      | Some (date_str, fmt) \<Rightarrow>
          (case strptime e date_str fmt of
             Some date_obj \<Rightarrow> (date_obj, [])
           | None \<Rightarrow> (getctime e tiff_file, [ErrorExtractingDate filename])))"

fun load_loop ::
  "('dt, 'p, 'g) env \<Rightarrow> string list \<Rightarrow> msg list \<Rightarrow> (string, ('p, 'g metadata_rec) image) dict \<Rightarrow>
   msg list \<times> (string, ('p, 'g metadata_rec) image) dict" where
  "load_loop e [] out images = (out, images)"
| "load_loop e (tiff_file # tiff_files) out images =
     (let filename = stem tiff_file;
          (date_obj, msgs) = extract_date e tiff_file filename;
          date_str = strftime e date_obj
      in case rasterio_read e tiff_file of
           Some (image_data, g) \<Rightarrow>
             load_loop e tiff_files
               (out @ msgs @ [LoadedImage date_str (shape image_data)])
               (dict_set images date_str
                  \<lparr>data = image_data, metadata = \<lparr>georef = g, file_path = tiff_file\<rparr>\<rparr>)
         | None \<Rightarrow> load_loop e tiff_files (out @ msgs @ [ErrorLoading tiff_file]) images)"

definition load_images_from_directory ::
  "('dt, 'p, 'g) env \<Rightarrow> string \<Rightarrow> msg list \<times> (string, ('p, 'g metadata_rec) image) dict" where
  "load_images_from_directory e directory =
     (let tiff_files = find_tiff_files e directory
      in if tiff_files = [] then ([NoTiffFilesFound directory], [])
         else load_loop e tiff_files [FoundTiffFiles (length tiff_files)] [])"

section \<open>Notions used to state the properties\<close>

text \<open>
  The date rule as the specification words it: an eight-digit part anywhere in the
  stem is preferred to a ten-character part with two dashes.
\<close>

definition spec_select_date_part :: "string list \<Rightarrow> (string \<times> string) option" where
  "spec_select_date_part parts =
     (case find is_yyyymmdd parts of
        Some part \<Rightarrow> Some (part, ''%Y%m%d'')
      | None \<Rightarrow>
          (case find is_yyyy_mm_dd parts of
             Some part \<Rightarrow> Some (part, ''%Y-%m-%d'')
           | None \<Rightarrow> None))"

text \<open>
  The pairs \<open>(dates[i], dates[i + 1])\<close> of a list, the result and the printed lines
  of one pair, and the successive stores into a dictionary.
\<close>

definition adjacent_pairs :: "'a list \<Rightarrow> ('a \<times> 'a) list" where
  "adjacent_pairs xs = zip xs (tl xs)"

definition same_shape :: "(string, ('p, 'm) image) dict \<Rightarrow> string \<times> string \<Rightarrow> bool" where
  "same_shape image_dict = (\<lambda>(a, b).
     (case dict_get image_dict a of
        None \<Rightarrow> False
      | Some e1 \<Rightarrow>
          (case dict_get image_dict b of
             None \<Rightarrow> False
           | Some e2 \<Rightarrow> shape (data e1) = shape (data e2))))"

definition change_of ::
  "('p \<Rightarrow> real) \<Rightarrow> (string, ('p, 'm) image) dict \<Rightarrow> string \<times> string \<Rightarrow> change_result option" where
  "change_of to_float image_dict = (\<lambda>(a, b).
     (case dict_get image_dict a of
        None \<Rightarrow> None
      | Some e1 \<Rightarrow>
          (case dict_get image_dict b of
             None \<Rightarrow> None
           | Some e2 \<Rightarrow>
               if shape (data e1) = shape (data e2)
               then compare_pair to_float a b (data e1) (data e2) else None)))"

definition pair_entry ::
  "('p \<Rightarrow> real) \<Rightarrow> (string, ('p, 'm) image) dict \<Rightarrow> string \<times> string \<Rightarrow>
   (string \<times> change_result) option" where
  "pair_entry to_float image_dict = (\<lambda>(a, b).
     map_option (Pair (period_key a b)) (change_of to_float image_dict (a, b)))"

definition pair_msgs ::
  "('p \<Rightarrow> real) \<Rightarrow> (string, ('p, 'm) image) dict \<Rightarrow> string \<times> string \<Rightarrow> msg list" where
  "pair_msgs to_float image_dict = (\<lambda>(a, b).
     (case dict_get image_dict a of
        None \<Rightarrow> []
      | Some e1 \<Rightarrow>
          (case dict_get image_dict b of
             None \<Rightarrow> []
           | Some e2 \<Rightarrow>
               if shape (data e1) \<noteq> shape (data e2)
               then [WarnDifferentShapes a b, ShapeOf a (shape (data e1)),
                     ShapeOf b (shape (data e2))]
               else (case compare_pair to_float a b (data e1) (data e2) of
                       None \<Rightarrow> []
                     | Some r \<Rightarrow>
                         [ComparisonFromTo a b, TotalAbsoluteChange (total_difference r),
                          MeanAbsoluteChange (mean_difference r),
                          MaximumAbsoluteChange (max_difference r)]))))"

definition store_all ::
  "('k \<times> 'v) list \<Rightarrow> ('k, 'v) dict \<Rightarrow> ('k, 'v) dict" where
  "store_all kvs d = fold (\<lambda>(k, v) acc. dict_set acc k v) kvs d"

definition nonempty_rasters :: "(string, ('p, 'm) image) dict \<Rightarrow> bool" where
  "nonempty_rasters image_dict = list_all (\<lambda>(k, e). elems (data e) \<noteq> []) image_dict"


text \<open>Concrete inputs: single-band rasters of one pixel, a POSIX directory listing.\<close>

definition one_pixel :: "int \<Rightarrow> (int, unit) image" where
  "one_pixel v = \<lparr>data = \<lparr>shape = [1, 1, 1], elems = [v]\<rparr>, metadata = ()\<rparr>"

definition posix_env :: "string list \<Rightarrow> (unit, int, unit) env" where
  "posix_env names =
     \<lparr>listdir = (\<lambda>directory. names), glob_dirs = (\<lambda>pattern. []), normcase = (\<lambda>s. s),
      strptime = (\<lambda>s fmt. None),
      getctime = (\<lambda>p. ()), strftime = (\<lambda>d. []), rasterio_read = (\<lambda>p. None)\<rparr>"

definition removal_example :: change_result where
  "removal_example =
     \<lparr>difference = \<lparr>shape = [1, 1, 1], elems = [- 2]\<rparr>,
      abs_difference = \<lparr>shape = [1, 1, 1], elems = [2]\<rparr>,
      percentage_change = \<lparr>shape = [1, 1, 1], elems = [Some (- 2 / (2 + epsilon) * 100)]\<rparr>,
      total_difference = 2, mean_difference = 2, max_difference = 2,
      date1 = ''2023-01-15'', date2 = ''2023-02-10''\<rparr>"

text \<open>
  Sums that keep the sign of their terms: a sum of numbers none of which is positive is
  not positive, and a sum of numbers none of which is negative is not negative.
\<close>

definition sign_preserving :: "float_ops \<Rightarrow> bool" where
  "sign_preserving ops =
     (\<forall>xs. (list_all (\<lambda>x. x \<le> 0) xs \<longrightarrow> fl_sum ops xs \<le> 0) \<and>
           (list_all (\<lambda>x. 0 \<le> x) xs \<longrightarrow> 0 \<le> fl_sum ops xs))"

text \<open>The binary64 number nearest to \<open>0.1\<close>, and a change from \<open>(5, 0)\<close> to \<open>(0, 0.1)\<close>.\<close>

definition tenth :: real where
  "tenth = 3602879701896397 / 36028797018963968"

definition rounding_example :: change_result where
  "rounding_example =
     \<lparr>difference = \<lparr>shape = [1, 1, 2], elems = [- 5, tenth]\<rparr>,
      abs_difference = \<lparr>shape = [1, 1, 2], elems = [5, tenth]\<rparr>,
      percentage_change =
        \<lparr>shape = [1, 1, 2],
         elems = [Some (- 5 / (5 + epsilon) * 100), Some (tenth / (0 + epsilon) * 100)]\<rparr>,
      total_difference = 5 + tenth, mean_difference = (5 + tenth) / 2, max_difference = 5,
      date1 = ''2023-01-15'', date2 = ''2023-02-10''\<rparr>"

definition wf_rasters :: "(string, ('p, 'm) image) dict \<Rightarrow> bool" where
  "wf_rasters image_dict = list_all (\<lambda>(k, e). wf_ndarray (data e)) image_dict"

definition guard_example :: "(string, (int, unit) image) dict" where
  "guard_example = [(''2023-02-10'', one_pixel 5), (''2023-01-15'', one_pixel 0)]"

definition guard_result :: change_result where
  "guard_result =
     \<lparr>difference = \<lparr>shape = [1, 1, 1], elems = [5]\<rparr>,
      abs_difference = \<lparr>shape = [1, 1, 1], elems = [5]\<rparr>,
      percentage_change = \<lparr>shape = [1, 1, 1], elems = [Some 5000000000000]\<rparr>,
      total_difference = 5, mean_difference = 5, max_difference = 5,
      date1 = ''2023-01-15'', date2 = ''2023-02-10''\<rparr>"

definition guard_output :: "msg list" where
  "guard_output =
     [ComparisonFromTo ''2023-01-15'' ''2023-02-10'', TotalAbsoluteChange 5,
      MeanAbsoluteChange 5, MaximumAbsoluteChange 5]"

definition result_keys ::
  "msg list \<times> (error + (string, change_result) dict option) \<Rightarrow> string list option" where
  "result_keys run =
     (case snd run of
        Inr (Some results) \<Rightarrow> Some (dict_keys results)
      | _ \<Rightarrow> None)"

definition three_dates :: "(string, (int, unit) image) dict" where
  "three_dates =
     [(''2023-03-01'', one_pixel 9), (''2023-01-15'', one_pixel 4), (''2023-02-10'', one_pixel 6)]"

definition band :: "nat \<Rightarrow> int list \<Rightarrow> (int, unit) image" where
  "band height vs = \<lparr>data = \<lparr>shape = [1, height, 1], elems = vs\<rparr>, metadata = ()\<rparr>"

definition empty_example :: "(string, (int, unit) image) dict" where
  "empty_example = [(''2023-01-15'', band 0 []), (''2023-02-10'', band 0 [])]"

definition mismatch_example :: "(string, (int, unit) image) dict" where
  "mismatch_example =
     [(''2023-01-15'', band 2 [1, 2]), (''2023-02-10'', band 3 [1, 2, 3]),
      (''2023-03-01'', band 3 [4, 4, 4])]"

section \<open>Dictionaries and sums\<close>

lemma sum_list_neg_pos: "sum_list (filter (\<lambda>v. v < 0) xs) + sum_list (filter (\<lambda>v. 0 < v) xs) = sum_list (xs::real list)"
  by (induction xs) auto

lemma sum_list_neg_le: "sum_list (filter (\<lambda>v. v < 0) xs) \<le> (0::real)"
  by (induction xs) auto

lemma sum_list_pos_ge: "(0::real) \<le> sum_list (filter (\<lambda>v. 0 < v) xs)"
  by (induction xs) auto

lemma dict_get_dict_set: "dict_get (dict_set d k v) k' = (if k' = k then Some v else dict_get d k')"
  by (induction d k v rule: dict_set.induct) (auto simp: dict_get_def)

lemma dict_set_new: "k \<notin> set (dict_keys d) \<Longrightarrow> dict_set d k v = d @ [(k, v)]"
  by (induction d k v rule: dict_set.induct) (auto simp: dict_keys_def)

lemma estimate_loop_char:
  "distinct (dict_keys ve @ dict_keys items) \<Longrightarrow>
   snd (estimate_loop a items out ve) = ve @ map (\<lambda>(p, dat). (p, estimate_period a dat)) items"
proof (induction items arbitrary: out ve)
  case Nil
  then show ?case by simp
next
  case (Cons x items)
  obtain p dat where x: "x = (p, dat)" by (cases x)
  from Cons.prems have new: "p \<notin> set (dict_keys ve)"
    by (auto simp: x dict_keys_def)
  have eq: "dict_set ve p (estimate_period a dat) = ve @ [(p, estimate_period a dat)]"
    using new by (rule dict_set_new)
  have "distinct (dict_keys (ve @ [(p, estimate_period a dat)]) @ dict_keys items)"
    using Cons.prems by (auto simp: x dict_keys_def)
  from Cons.IH[OF this] show ?case
    by (simp add: x Let_def eq)
qed

lemma estimate_volume_changes_char:
  "is_dict results \<Longrightarrow>
   snd (estimate_volume_changes results a) = map (\<lambda>(p, dat). (p, estimate_period a dat)) results"
  using estimate_loop_char[of "[]" results a "[]"]
  by (simp add: estimate_volume_changes_def is_dict_def dict_keys_def)

lemma dict_get_map_entries:
  "dict_get (map (\<lambda>(p, dat). (p, f dat)) d) k = map_option f (dict_get d k)"
  by (induction d) (auto simp: dict_get_def)


section \<open>The estimator in floating-point arithmetic\<close>

lemma estimate_loop_float_char:
  "distinct (dict_keys ve @ dict_keys items) \<Longrightarrow>
   snd (estimate_loop_float ops a items out ve) =
     ve @ map (\<lambda>(p, dat). (p, estimate_period_float ops a dat)) items"
proof (induction items arbitrary: out ve)
  case Nil
  then show ?case by simp
next
  case (Cons x items)
  obtain p dat where x: "x = (p, dat)" by (cases x)
  from Cons.prems have new: "p \<notin> set (dict_keys ve)"
    by (auto simp: x dict_keys_def)
  have eq: "dict_set ve p (estimate_period_float ops a dat)
      = ve @ [(p, estimate_period_float ops a dat)]"
    using new by (rule dict_set_new)
  have "distinct (dict_keys (ve @ [(p, estimate_period_float ops a dat)]) @ dict_keys items)"
    using Cons.prems by (auto simp: x dict_keys_def)
  from Cons.IH[OF this] show ?case
    by (simp add: x Let_def eq)
qed

lemma estimate_volume_changes_float_char:
  "is_dict results \<Longrightarrow>
   snd (estimate_volume_changes_float ops results a) =
     map (\<lambda>(p, dat). (p, estimate_period_float ops a dat)) results"
  using estimate_loop_float_char[of "[]" results ops a "[]"]
  by (simp add: estimate_volume_changes_float_def is_dict_def dict_keys_def)

text \<open>With the exact operations the floating-point estimator is the exact one.\<close>

lemma estimate_period_float_exact:
  "estimate_period_float exact_ops pixel_area dat = estimate_period pixel_area dat"
  by (simp add: estimate_period_float_def estimate_period_def exact_ops_def)

lemma estimate_loop_float_exact:
  "estimate_loop_float exact_ops a items out ve = estimate_loop a items out ve"
  by (induction items arbitrary: out ve) (auto simp: estimate_period_float_exact)

lemma estimate_volume_changes_float_exact:
  "estimate_volume_changes_float exact_ops results a = estimate_volume_changes results a"
  by (simp add: estimate_volume_changes_float_def estimate_volume_changes_def
      estimate_loop_float_exact)

text \<open>Rounding keeps the sign, and so do the running sums of binary64.\<close>

lemma round_half_even_nonneg: "0 \<le> x \<Longrightarrow> 0 \<le> round_half_even x"
  by (auto simp: round_half_even_def Let_def)

lemma round_half_even_nonpos: "x \<le> 0 \<Longrightarrow> round_half_even x \<le> 0"
proof -
  assume x: "x \<le> 0"
  have f: "\<lfloor>x\<rfloor> \<le> 0" using x by (simp add: floor_le_zero)
  have g: "\<lfloor>x\<rfloor> + 1 \<le> 0" if "x \<noteq> of_int \<lfloor>x\<rfloor>"
  proof -
    from that x have "x < 0" by (cases "x = 0") auto
    then show ?thesis by (simp add: floor_less_iff add1_zle_eq)
  qed
  show ?thesis
    using f g by (auto simp: round_half_even_def Let_def)
qed

lemma round_double_nonneg: "0 \<le> x \<Longrightarrow> 0 \<le> round_double x"
proof (cases "x = 0")
  case True
  then show ?thesis by (simp add: round_double_def)
next
  case False
  define q :: real where "q = 2 powi (max (binade x) (- 1022) - 52)"
  have q: "0 < q" by (simp add: q_def)
  assume "0 \<le> x"
  with q have "0 \<le> x / q" by simp
  then have "0 \<le> round_half_even (x / q)" by (rule round_half_even_nonneg)
  with q have "0 \<le> of_int (round_half_even (x / q)) * q" by simp
  with False show ?thesis by (simp add: round_double_def Let_def q_def)
qed

lemma round_double_nonpos: "x \<le> 0 \<Longrightarrow> round_double x \<le> 0"
proof (cases "x = 0")
  case True
  then show ?thesis by (simp add: round_double_def)
next
  case False
  define q :: real where "q = 2 powi (max (binade x) (- 1022) - 52)"
  have q: "0 < q" by (simp add: q_def)
  assume "x \<le> 0"
  with q have "x / q \<le> 0" by (simp add: divide_nonpos_pos)
  then have "round_half_even (x / q) \<le> 0" by (rule round_half_even_nonpos)
  with q have "of_int (round_half_even (x / q)) * q \<le> 0"
    by (simp add: mult_nonpos_nonneg)
  with False show ?thesis by (simp add: round_double_def Let_def q_def)
qed

lemma running_sum_nonpos:
  "s \<le> 0 \<Longrightarrow> list_all (\<lambda>x. x \<le> 0) xs \<Longrightarrow>
   foldl (\<lambda>s x. round_double (s + x)) s xs \<le> 0"
proof (induction xs arbitrary: s)
  case Nil
  then show ?case by simp
next
  case (Cons a xs)
  from Cons.prems have "round_double (s + a) \<le> 0"
    by (intro round_double_nonpos) simp
  with Cons.IH[of "round_double (s + a)"] Cons.prems show ?case by simp
qed

lemma running_sum_nonneg:
  "0 \<le> s \<Longrightarrow> list_all (\<lambda>x. 0 \<le> x) xs \<Longrightarrow>
   0 \<le> foldl (\<lambda>s x. round_double (s + x)) s xs"
proof (induction xs arbitrary: s)
  case Nil
  then show ?case by simp
next
  case (Cons a xs)
  from Cons.prems have "0 \<le> round_double (s + a)"
    by (intro round_double_nonneg) simp
  with Cons.IH[of "round_double (s + a)"] Cons.prems show ?case by simp
qed

lemma sign_preserving_binary64: "sign_preserving binary64_ops"
  by (simp add: sign_preserving_def binary64_ops_def running_sum_nonpos running_sum_nonneg)

lemma sign_preserving_exact: "sign_preserving exact_ops"
  by (auto simp: sign_preserving_def exact_ops_def list_all_iff
      intro: sum_list_nonneg sum_list_nonpos)

text \<open>The binary64 estimate for the differences \<open>-5\<close> and \<open>0.1\<close>, pixel area \<open>100\<close>.\<close>

lemma rounding_estimate:
  "estimate_period_float binary64_ops 100 rounding_example =
     \<lparr>material_removed_m3 = 500, material_added_m3 = 10, net_change_m3 = - 490\<rparr>"
  by (simp add: estimate_period_float_def rounding_example_def tenth_def binary64_ops_def
      nd_map_def round_double_def binade_def round_half_even_def Let_def compute_bitlen)

section \<open>The loop of the change detector\<close>

lemma adjacent_pairs_simps [simp]:
  "adjacent_pairs [] = []"
  "adjacent_pairs [x] = []"
  "adjacent_pairs (x # y # zs) = (x, y) # adjacent_pairs (y # zs)"
  by (simp_all add: adjacent_pairs_def)

text \<open>The pairs are those the index loop reads: \<open>dates[i]\<close> and \<open>dates[i + 1]\<close>.\<close>

lemma adjacent_pairs_nth:
  "adjacent_pairs dates = map (\<lambda>i. (dates ! i, dates ! (i + 1))) [0..<length dates - 1]"
  by (rule nth_equalityI) (auto simp: adjacent_pairs_def nth_tl)

lemma store_all_simps [simp]:
  "store_all [] d = d"
  "store_all ((k, v) # kvs) d = store_all kvs (dict_set d k v)"
  by (simp_all add: store_all_def)

lemma compare_loop_char:
  "compare_loop tf d ds out res = (out', Inr res') \<Longrightarrow>
   out' = out @ concat (map (pair_msgs tf d) (adjacent_pairs ds)) \<and>
   res' = store_all (List.map_filter (pair_entry tf d) (adjacent_pairs ds)) res"
proof (induction tf d ds out res rule: compare_loop.induct)
  case (1 tf d d1 d2 dates out res)
  then show ?case
    by (auto simp: pair_msgs_def pair_entry_def change_of_def List.map_filter_simps
        split: option.splits if_splits)
qed simp_all

lemma compare_pair_Some:
  "elems i1 \<noteq> [] \<Longrightarrow> elems i2 \<noteq> [] \<Longrightarrow> \<exists>r. compare_pair tf a b i1 i2 = Some r"
  by (cases "elems i1"; cases "elems i2")
     (simp_all add: compare_pair_def Let_def np_max_def np_abs_def nd_map_def nd_map2_def astype_def)

text \<open>
  Two rasters of the same shape and without pixels end the run: \<open>np.max\<close> raises
  \<open>ValueError\<close> on the empty array of absolute differences.
\<close>

lemma compare_images_empty_raises:
  "compare_images real_of_int empty_example = ([], Inl ValueError)"
  by (simp add: compare_images_def empty_example_def band_def dict_keys_def dict_get_def
      compare_pair_def Let_def nd_map2_def nd_map_def astype_def np_abs_def np_max_def)

lemma compare_loop_returns:
  "\<forall>k\<in>set ds. \<exists>e. dict_get d k = Some e \<and> elems (data e) \<noteq> [] \<Longrightarrow>
   \<exists>out' res'. compare_loop tf d ds out res = (out', Inr res')"
proof (induction tf d ds out res rule: compare_loop.induct)
  case (1 tf d d1 d2 dates out res)
  from "1.prems" obtain e1 e2 where
    e1: "dict_get d d1 = Some e1" "elems (data e1) \<noteq> []" and
    e2: "dict_get d d2 = Some e2" "elems (data e2) \<noteq> []"
    by auto
  from "1.prems" have rest: "\<forall>k\<in>set (d2 # dates). \<exists>e. dict_get d k = Some e \<and> elems (data e) \<noteq> []"
    by simp
  show ?case
  proof (cases "shape (data e1) = shape (data e2)")
    case True
    from compare_pair_Some[OF e1(2) e2(2)] obtain r where
      r: "compare_pair tf d1 d2 (data e1) (data e2) = Some r" by blast
    from "1.IH"(2)[OF e1(1) e2(1) _ r rest] True show ?thesis
      by (simp add: e1 e2 r)
  next
    case False
    from "1.IH"(1)[OF e1(1) e2(1) False rest] False show ?thesis
      by (simp add: e1 e2)
  qed
qed simp_all

lemma set_dict_set: "set (dict_set d k v) \<subseteq> insert (k, v) (set d)"
  by (induction d k v rule: dict_set.induct) auto

lemma set_store_all: "set (store_all kvs d) \<subseteq> set d \<union> set kvs"
proof (induction kvs arbitrary: d)
  case Nil
  then show ?case by simp
next
  case (Cons kv kvs)
  obtain k v where kv: "kv = (k, v)" by (cases kv)
  from Cons.IH[of "dict_set d k v"] set_dict_set[of d k v] show ?case
    by (auto simp: kv)
qed

lemma fold_max_ge: "(x::real) \<le> fold max xs x \<and> (\<forall>y\<in>set xs. y \<le> fold max xs x)"
proof (induction xs arbitrary: x)
  case Nil
  then show ?case by simp
next
  case (Cons a xs)
  from Cons.IH[of "max a x"] show ?case by auto
qed

lemma np_max_ge: "np_max a = Some m \<Longrightarrow> x \<in> set (elems a) \<Longrightarrow> x \<le> m"
  using fold_max_ge by (fastforce simp: np_max_def split: list.splits)

lemma np_max_nonempty: "np_max a = Some m \<Longrightarrow> elems a \<noteq> []"
  by (auto simp: np_max_def)

lemma compare_pair_SomeD:
  assumes "compare_pair tf a b i1 i2 = Some r"
  shows "date1 r = a" "date2 r = b"
    "difference r = \<lparr>shape = shape i2, elems = map2 (\<lambda>y x. tf y - tf x) (elems i2) (elems i1)\<rparr>"
    "abs_difference r = \<lparr>shape = shape i2, elems = map abs (elems (difference r))\<rparr>"
    "percentage_change r =
       \<lparr>shape = shape i2,
        elems = map2 (\<lambda>dv x. map_option (\<lambda>q. q * 100) (float_div dv (tf x + epsilon)))
                  (elems (difference r)) (elems i1)\<rparr>"
    "total_difference r = sum_list (elems (abs_difference r))"
    "mean_difference r = total_difference r / real (length (elems (abs_difference r)))"
    "elems (abs_difference r) \<noteq> []"
    "\<forall>x\<in>set (elems (abs_difference r)). x \<le> max_difference r"
proof -
  let ?diff = "nd_map2 (\<lambda>x y. x - y) (astype tf i2) (astype tf i1)"
  from assms obtain mx where mx: "np_max (np_abs ?diff) = Some mx"
    by (auto simp: compare_pair_def Let_def split: option.splits)
  from assms mx have r: "r = \<lparr>difference = ?diff, abs_difference = np_abs ?diff,
      percentage_change = nd_map (map_option (\<lambda>q. q * 100))
         (nd_map2 float_div ?diff (nd_map (\<lambda>x. x + epsilon) (astype tf i1))),
      total_difference = np_sum (np_abs ?diff), mean_difference = np_mean (np_abs ?diff),
      max_difference = mx, date1 = a, date2 = b\<rparr>"
    by (simp add: compare_pair_def Let_def)
  have z: "map2 f (map g xs) (map h ys) = map2 (\<lambda>x y. f (g x) (h y)) xs ys" for f g h xs ys
    by (simp add: zip_map_map map_zip_map map_zip_map2 split_def)
  show "date1 r = a" "date2 r = b" by (simp_all add: r)
  show d: "difference r = \<lparr>shape = shape i2, elems = map2 (\<lambda>y x. tf y - tf x) (elems i2) (elems i1)\<rparr>"
    by (simp add: r nd_map2_def astype_def z)
  show "abs_difference r = \<lparr>shape = shape i2, elems = map abs (elems (difference r))\<rparr>"
    by (simp add: r np_abs_def nd_map_def nd_map2_def astype_def)
  show "percentage_change r =
       \<lparr>shape = shape i2,
        elems = map2 (\<lambda>dv x. map_option (\<lambda>q. q * 100) (float_div dv (tf x + epsilon)))
                  (elems (difference r)) (elems i1)\<rparr>"
    by (simp add: r nd_map_def nd_map2_def astype_def zip_map2 split_def)
  show "total_difference r = sum_list (elems (abs_difference r))"
    by (simp add: r np_sum_def)
  show "mean_difference r = total_difference r / real (length (elems (abs_difference r)))"
    by (simp add: r np_mean_def np_sum_def)
  show "elems (abs_difference r) \<noteq> []"
    using np_max_nonempty[OF mx] by (simp add: r)
  show "\<forall>x\<in>set (elems (abs_difference r)). x \<le> max_difference r"
    using np_max_ge[OF mx] by (simp add: r)
qed

lemma change_of_SomeD:
  "change_of tf d (a, b) = Some r \<Longrightarrow>
   \<exists>e1 e2. dict_get d a = Some e1 \<and> dict_get d b = Some e2 \<and>
     shape (data e1) = shape (data e2) \<and> compare_pair tf a b (data e1) (data e2) = Some r"
  by (auto simp: change_of_def split: option.splits if_splits)

lemma results_origin:
  assumes "compare_images tf d = (out, Inr (Some results))" and "(k, r) \<in> set results"
  shows "\<exists>a b. (a, b) \<in> set (adjacent_pairs (sort (dict_keys d))) \<and> k = period_key a b \<and>
           change_of tf d (a, b) = Some r"
proof -
  let ?pairs = "adjacent_pairs (sort (dict_keys d))"
  from assms(1) have "compare_loop tf d (sort (dict_keys d)) [] [] = (out, Inr results)"
    by (auto simp: compare_images_def split: if_splits prod.splits sum.splits)
  from compare_loop_char[OF this]
  have "results = store_all (List.map_filter (pair_entry tf d) ?pairs) []" by simp
  with assms(2) set_store_all[of "List.map_filter (pair_entry tf d) ?pairs" "[]"]
  have "(k, r) \<in> set (List.map_filter (pair_entry tf d) ?pairs)" by auto
  then obtain p where p: "p \<in> set ?pairs" "pair_entry tf d p = Some (k, r)"
    by (auto simp: List.map_filter_def)
  obtain a b where ab: "p = (a, b)" by (cases p)
  from p(2) have "k = period_key a b" "change_of tf d (a, b) = Some r"
    by (auto simp: ab pair_entry_def)
  with p(1) ab show ?thesis by blast
qed

lemma result_images:
  assumes "compare_images tf d = (out, Inr (Some results))" and "(k, r) \<in> set results"
  shows "\<exists>e1 e2. dict_get d (date1 r) = Some e1 \<and> dict_get d (date2 r) = Some e2 \<and>
           shape (data e1) = shape (data e2) \<and>
           compare_pair tf (date1 r) (date2 r) (data e1) (data e2) = Some r"
proof -
  from results_origin[OF assms] obtain a b where "change_of tf d (a, b) = Some r" by blast
  from change_of_SomeD[OF this] obtain e1 e2 where
    e: "dict_get d a = Some e1" "dict_get d b = Some e2" "shape (data e1) = shape (data e2)"
       "compare_pair tf a b (data e1) (data e2) = Some r"
    by blast
  from compare_pair_SomeD(1,2)[OF e(4)] e show ?thesis by auto
qed

lemma wf_rasters_get:
  "wf_rasters d \<Longrightarrow> dict_get d k = Some e \<Longrightarrow> length (elems (data e)) = prod_list (shape (data e))"
  by (auto simp: wf_rasters_def dict_get_def list_all_iff wf_ndarray_def dest!: map_of_SomeD)

lemma compare_loop_cong:
  "dict_get d1 = dict_get d2 \<Longrightarrow>
   compare_loop tf d1 ds out res = compare_loop tf d2 ds out res"
proof (induction ds arbitrary: out res rule: induct_list012)
  case (3 x y zs)
  then show ?case by (simp split: option.splits)
qed simp_all


lemma store_all_new:
  "distinct (dict_keys d @ map fst kvs) \<Longrightarrow> store_all kvs d = d @ kvs"
proof (induction kvs arbitrary: d)
  case Nil
  then show ?case by simp
next
  case (Cons kv kvs)
  obtain k v where kv: "kv = (k, v)" by (cases kv)
  from Cons.prems have new: "k \<notin> set (dict_keys d)"
    by (auto simp: kv)
  have "distinct (dict_keys (d @ [(k, v)]) @ map fst kvs)"
    using Cons.prems by (auto simp: kv dict_keys_def)
  from Cons.IH[OF this] show ?case
    by (simp add: kv dict_set_new[OF new])
qed

text \<open>
  Keys of different lengths can give one period key to two pairs of a sorted list;
  date keys of one length cannot.
\<close>

lemma period_key_collision:
  "sorted_wrt (<) [[], ''__to_t'', ''_to__'', ''t''] \<and>
   period_key [] ''__to_t'' = period_key ''_to__'' ''t''"
  by (simp add: period_key_def)

lemma period_key_inj:
  "length a = length a' \<Longrightarrow> period_key a b = period_key a' b' \<Longrightarrow> a = a' \<and> b = b'"
  by (simp add: period_key_def)

lemma set_adjacent_pairs:
  "(a, b) \<in> set (adjacent_pairs xs) \<Longrightarrow> a \<in> set xs \<and> b \<in> set xs"
  unfolding adjacent_pairs_def
  by (metis list.sel(2) list.set_sel(2) set_zip_leftD set_zip_rightD)

lemma distinct_adjacent_pairs: "distinct xs \<Longrightarrow> distinct (adjacent_pairs xs)"
  by (simp add: adjacent_pairs_def distinct_zipI1)

lemma keys_map_filter:
  "map fst (List.map_filter (pair_entry tf d) ps) =
   map (\<lambda>(a, b). period_key a b) (filter (\<lambda>p. change_of tf d p \<noteq> None) ps)"
  by (induction ps) (auto simp: List.map_filter_simps pair_entry_def split: option.splits)

lemma dates_map_filter:
  "map (\<lambda>(k, r). (date1 r, date2 r)) (List.map_filter (pair_entry tf d) ps) =
   filter (\<lambda>p. change_of tf d p \<noteq> None) ps"
proof (induction ps)
  case Nil
  then show ?case by (simp add: List.map_filter_simps)
next
  case (Cons p ps)
  obtain a b where p: "p = (a, b)" by (cases p)
  show ?case
  proof (cases "change_of tf d (a, b)")
    case None
    with Cons show ?thesis by (simp add: p List.map_filter_simps pair_entry_def)
  next
    case (Some r)
    from change_of_SomeD[OF Some] obtain e1 e2 where
      "dict_get d a = Some e1" and "dict_get d b = Some e2" and
      cp: "compare_pair tf a b (data e1) (data e2) = Some r" by blast
    from compare_pair_SomeD(1,2)[OF cp] Cons Some show ?thesis
      by (simp add: p List.map_filter_simps pair_entry_def)
  qed
qed

lemma lookups_valid:
  assumes "nonempty_rasters d" and "k \<in> set (dict_keys d)"
  shows "\<exists>e. dict_get d k = Some e \<and> elems (data e) \<noteq> []"
proof -
  from assms(2) obtain e where e: "dict_get d k = Some e"
    by (auto simp: dict_keys_def dict_get_def dest: weak_map_of_SomeI)
  then have "(k, e) \<in> set d"
    by (auto simp: dict_get_def dest: map_of_SomeD)
  with assms(1) have "elems (data e) \<noteq> []"
    by (auto simp: nonempty_rasters_def list_all_iff)
  with e show ?thesis by blast
qed

lemma change_of_same_shape:
  assumes "nonempty_rasters d" and "a \<in> set (dict_keys d)" and "b \<in> set (dict_keys d)"
  shows "(change_of tf d (a, b) \<noteq> None) = same_shape d (a, b)"
proof -
  from lookups_valid[OF assms(1,2)] obtain e1 where
    e1: "dict_get d a = Some e1" "elems (data e1) \<noteq> []" by blast
  from lookups_valid[OF assms(1,3)] obtain e2 where
    e2: "dict_get d b = Some e2" "elems (data e2) \<noteq> []" by blast
  from compare_pair_Some[OF e1(2) e2(2), of tf a b] e1(1) e2(1) show ?thesis
    by (auto simp: change_of_def same_shape_def)
qed

lemma period_key_inj_on:
  assumes "list_all (\<lambda>k. length k = n) ds"
  shows "inj_on (\<lambda>(a, b). period_key a b) (set (adjacent_pairs ds))"
proof (rule inj_onI)
  fix p q
  assume pq: "p \<in> set (adjacent_pairs ds)" "q \<in> set (adjacent_pairs ds)"
    "(case p of (a, b) \<Rightarrow> period_key a b) = (case q of (a, b) \<Rightarrow> period_key a b)"
  obtain a b where p: "p = (a, b)" by (cases p)
  obtain a' b' where q: "q = (a', b')" by (cases q)
  from pq(1,2) set_adjacent_pairs[of a b ds] set_adjacent_pairs[of a' b' ds] assms
  have "length a = length a'"
    by (simp add: p q list_all_iff)
  from period_key_inj[OF this] pq(3) show "p = q"
    by (simp add: p q)
qed

lemma distinct_entries:
  assumes "distinct ds" and "list_all (\<lambda>k. length k = n) ds"
  shows "distinct (map fst (List.map_filter (pair_entry tf d) (adjacent_pairs ds)))"
proof -
  let ?ps = "adjacent_pairs ds"
  have "distinct (filter (\<lambda>p. change_of tf d p \<noteq> None) ?ps)"
    using assms(1) by (simp add: distinct_adjacent_pairs)
  moreover have "inj_on (\<lambda>(a, b). period_key a b)
      (set (filter (\<lambda>p. change_of tf d p \<noteq> None) ?ps))"
    using period_key_inj_on[OF assms(2)] by (rule inj_on_subset) auto
  ultimately show ?thesis
    by (simp add: keys_map_filter distinct_map)
qed

lemma compare_images_valid:
  assumes "is_dict d" and "2 \<le> length d" and "nonempty_rasters d"
      and "list_all (\<lambda>k. length k = n) (dict_keys d)"
  shows "compare_images tf d =
           (concat (map (pair_msgs tf d) (adjacent_pairs (sort (dict_keys d)))),
            Inr (Some (List.map_filter (pair_entry tf d) (adjacent_pairs (sort (dict_keys d))))))"
    and "distinct (map fst (List.map_filter (pair_entry tf d) (adjacent_pairs (sort (dict_keys d)))))"
proof -
  let ?ds = "sort (dict_keys d)"
  let ?ps = "adjacent_pairs ?ds"
  let ?kvs = "List.map_filter (pair_entry tf d) ?ps"
  have "\<forall>k\<in>set ?ds. \<exists>e. dict_get d k = Some e \<and> elems (data e) \<noteq> []"
    using lookups_valid[OF assms(3)] by simp
  from compare_loop_returns[OF this, of tf "[]" "[]"] obtain out' res' where
    run: "compare_loop tf d ?ds [] [] = (out', Inr res')" by blast
  from compare_loop_char[OF run] have
    out': "out' = concat (map (pair_msgs tf d) ?ps)" and
    res': "res' = store_all ?kvs []" by simp_all
  have "distinct ?ds"
    using assms(1) by (simp add: is_dict_def dict_keys_def)
  moreover have "list_all (\<lambda>k. length k = n) ?ds"
    using assms(4) by (simp add: list_all_iff)
  ultimately show dk: "distinct (map fst ?kvs)"
    by (rule distinct_entries)
  then have "store_all ?kvs [] = ?kvs"
    using store_all_new[of "[]" ?kvs] by (simp add: dict_keys_def)
  with run out' res' assms(2) show "compare_images tf d =
      (concat (map (pair_msgs tf d) ?ps), Inr (Some ?kvs))"
    by (simp add: compare_images_def)
qed

section \<open>Properties of the analysis module\<close>

text \<open>
  C1 (as the code has it). A collection with fewer than two entries makes
  \<open>compare_images\<close> print the line "Need at least two images to compare" and return
  \<open>None\<close>: no result dictionary is returned, and nothing is raised.
\<close>

theorem C1_need_two:
  "length image_dict < 2 \<Longrightarrow>
   compare_images to_float image_dict = ([NeedTwoImages], Inr None)"
  by (simp add: compare_images_def)

theorem C1_need_two_witness:
  "length [(''2023-01-15'', one_pixel 7)] < 2 \<and>
   compare_images real_of_int [(''2023-01-15'', one_pixel 7)] = ([NeedTwoImages], Inr None)"
  using C1_need_two[of "[(''2023-01-15'', one_pixel 7)]" real_of_int] by simp

text \<open>C1 as stated fails: for one entry the value returned is not the empty dictionary.\<close>

theorem C1_counterexample:
  "snd (compare_images real_of_int [(''2023-01-15'', one_pixel 7)]) \<noteq> Inr (Some [])"
  by (simp add: compare_images_def)

text \<open>
  C2 (as the code has it). The parts of the stem are scanned once, in order, and the
  scan stops at the first part that is either eight digits or ten characters with
  exactly two dashes; that part is parsed as \<open>%Y%m%d\<close> in the first case and as
  \<open>%Y-%m-%d\<close> in the second. No part matching either rule gives no date.
\<close>

theorem C2_first_matching_part:
  "select_date_part parts =
     (case find (\<lambda>part. is_yyyymmdd part \<or> is_yyyy_mm_dd part) parts of
        None \<Rightarrow> None
      | Some part \<Rightarrow> Some (part, if is_yyyymmdd part then ''%Y%m%d'' else ''%Y-%m-%d''))"
  by (induction parts) auto

text \<open>
  C2 as stated fails: in the stem \<open>2023-01-15_20230210\<close> the eight-digit part comes
  second, and the scan stops at the ten-character part before it.
\<close>

theorem C2_counterexample:
  "select_date_part (split ''2023-01-15_20230210'' (CHR ''_'')) =
     Some (''2023-01-15'', ''%Y-%m-%d'') \<and>
   spec_select_date_part (split ''2023-01-15_20230210'' (CHR ''_'')) =
     Some (''20230210'', ''%Y%m%d'')"
  by (simp add: spec_select_date_part_def is_yyyymmdd_def is_yyyy_mm_dd_def isdigit_def)

text \<open>
  C3. The claim asks that every file of the directory whose extension is \<open>.tif\<close> or
  \<open>.tiff\<close> in any letter case be found. On a POSIX system the loader, whose docstring
  says "Load all TIFF images from a directory", does not find a file whose extension
  is in upper case: of \<open>a.tif\<close>, \<open>b.TIF\<close> and \<open>c.tiff\<close> it finds \<open>a.tif\<close> and
  \<open>c.tiff\<close>, and for a directory that holds only \<open>b.TIF\<close> it prints that no TIFF
  files were found and returns an empty collection.
\<close>

theorem C3_upper_case_missed:
  "find_tiff_files (posix_env [''a.tif'', ''b.TIF'', ''c.tiff'']) ''data'' =
     [''data/a.tif'', ''data/c.tiff''] \<and>
   ''data/b.TIF'' \<notin> set (find_tiff_files (posix_env [''a.tif'', ''b.TIF'', ''c.tiff'']) ''data'') \<and>
   load_images_from_directory (posix_env [''b.TIF'']) ''data'' = ([NoTiffFilesFound ''data''], [])"
  by (simp add: load_images_from_directory_def find_tiff_files_def glob_star_def glob_dirname_def
      has_magic_def posix_env_def is_hidden_def endswith_def path_join_def Let_def)

text \<open>
  C4. Every change result of the detector belongs to two entries of the collection,
  the earlier at \<open>date1\<close> and the later at \<open>date2\<close>, whose arrays have the same shape,
  and (the arrays holding as many elements as their shape says): \<open>difference\<close> is,
  element by element, the later value minus the earlier one, both converted first;
  \<open>abs_difference\<close> is the absolute value of \<open>difference\<close>, element by element;
  \<open>total_difference\<close> is the sum of \<open>abs_difference\<close>; \<open>mean_difference\<close> is
  \<open>total_difference\<close> divided by the number of pixels; and \<open>max_difference\<close> is at
  least every element of \<open>abs_difference\<close>.
\<close>

theorem C4_change_result:
  assumes "compare_images to_float image_dict = (out, Inr (Some results))"
      and "(k, r) \<in> set results"
      and "wf_rasters image_dict"
  shows "\<exists>e1 e2. dict_get image_dict (date1 r) = Some e1 \<and>
           dict_get image_dict (date2 r) = Some e2 \<and>
           shape (data e1) = shape (data e2) \<and>
           shape (difference r) = shape (data e2) \<and>
           length (elems (difference r)) = prod_list (shape (data e2)) \<and>
           (\<forall>i<prod_list (shape (data e2)).
              elems (difference r) ! i =
                to_float (elems (data e2) ! i) - to_float (elems (data e1) ! i)) \<and>
           shape (abs_difference r) = shape (difference r) \<and>
           length (elems (abs_difference r)) = prod_list (shape (data e2)) \<and>
           (\<forall>i<prod_list (shape (data e2)).
              elems (abs_difference r) ! i = \<bar>elems (difference r) ! i\<bar>) \<and>
           total_difference r = sum_list (elems (abs_difference r)) \<and>
           0 < prod_list (shape (data e2)) \<and>
           mean_difference r = total_difference r / real (prod_list (shape (data e2))) \<and>
           (\<forall>x\<in>set (elems (abs_difference r)). x \<le> max_difference r)"
proof -
  from result_images[OF assms(1,2)] obtain e1 e2 where
    e1: "dict_get image_dict (date1 r) = Some e1" and
    e2: "dict_get image_dict (date2 r) = Some e2" and
    sh: "shape (data e1) = shape (data e2)" and
    cp: "compare_pair to_float (date1 r) (date2 r) (data e1) (data e2) = Some r"
    by blast
  let ?n = "prod_list (shape (data e2))"
  have l1: "length (elems (data e1)) = ?n"
    using wf_rasters_get[OF assms(3) e1] sh by simp
  have l2: "length (elems (data e2)) = ?n"
    using wf_rasters_get[OF assms(3) e2] by simp
  note facts = compare_pair_SomeD[OF cp]
  have ld: "length (elems (difference r)) = ?n"
    by (simp add: facts(3) l1 l2)
  have la: "length (elems (abs_difference r)) = ?n"
    by (simp add: facts(4) ld)
  have dv: "\<forall>i<?n. elems (difference r) ! i =
      to_float (elems (data e2) ! i) - to_float (elems (data e1) ! i)"
    by (simp add: facts(3) l1 l2)
  have av: "\<forall>i<?n. elems (abs_difference r) ! i = \<bar>elems (difference r) ! i\<bar>"
    using ld by (simp add: facts(4))
  have pos: "0 < ?n"
    using facts(8) la by (cases "elems (abs_difference r)") auto
  have mean: "mean_difference r = total_difference r / real ?n"
    using facts(7) la by simp
  have sa: "shape (abs_difference r) = shape (difference r)"
    by (simp add: facts(3,4))
  have sd: "shape (difference r) = shape (data e2)"
    by (simp add: facts(3))
  from e1 e2 sh sd ld dv sa la av facts(6) pos mean facts(9) show ?thesis
    by blast
qed

theorem C4_change_result_witness:
  "compare_images real_of_int guard_example =
     (guard_output, Inr (Some [(''2023-01-15_to_2023-02-10'', guard_result)])) \<and>
   wf_rasters guard_example \<and>
   dict_get guard_example (date1 guard_result) = Some (one_pixel 0) \<and>
   dict_get guard_example (date2 guard_result) = Some (one_pixel 5) \<and>
   elems (difference guard_result) ! 0 = real_of_int 5 - real_of_int 0 \<and>
   elems (abs_difference guard_result) ! 0 = \<bar>elems (difference guard_result) ! 0\<bar> \<and>
   total_difference guard_result = sum_list (elems (abs_difference guard_result)) \<and>
   mean_difference guard_result = total_difference guard_result / 1 \<and>
   elems (abs_difference guard_result) ! 0 \<le> max_difference guard_result"
proof -
  have run: "compare_images real_of_int guard_example =
     (guard_output, Inr (Some [(''2023-01-15_to_2023-02-10'', guard_result)]))"
    by (simp add: compare_images_def guard_example_def guard_output_def guard_result_def
        one_pixel_def dict_keys_def dict_get_def compare_pair_def Let_def nd_map2_def nd_map_def
        astype_def np_abs_def np_sum_def np_mean_def np_max_def float_div_def epsilon_def
        period_key_def)
  have wf: "wf_rasters guard_example"
    by (simp add: wf_rasters_def guard_example_def one_pixel_def wf_ndarray_def)
  have mem: "(''2023-01-15_to_2023-02-10'', guard_result)
      \<in> set [(''2023-01-15_to_2023-02-10'', guard_result)]"
    by simp
  from C4_change_result[OF run mem wf] run wf show ?thesis
    by (simp add: guard_result_def guard_example_def dict_get_def)
qed

text \<open>
  C5. For every period of the results and every pixel area, the estimate stored for
  the period has \<open>material_removed\<close> the negated sum of the negative entries of
  \<open>difference * pixel_area\<close>, \<open>material_added\<close> the sum of its positive entries, and
  \<open>net_change\<close> their difference. A single pixel of difference \<open>-2\<close> with pixel area
  \<open>100\<close> gives \<open>200\<close>, \<open>0\<close> and \<open>-200\<close>.
\<close>

theorem C5_volume:
  assumes "is_dict results" and "dict_get results period = Some dat"
  shows "dict_get (snd (estimate_volume_changes results pixel_area)) period =
           Some \<lparr>material_removed_m3 =
                    - (\<Sum>x\<leftarrow>elems (difference dat). if x * pixel_area < 0 then x * pixel_area else 0),
                  material_added_m3 =
                    (\<Sum>x\<leftarrow>elems (difference dat). if x * pixel_area > 0 then x * pixel_area else 0),
                  net_change_m3 =
                    (\<Sum>x\<leftarrow>elems (difference dat). if x * pixel_area > 0 then x * pixel_area else 0)
                    - (- (\<Sum>x\<leftarrow>elems (difference dat). if x * pixel_area < 0 then x * pixel_area else 0))\<rparr>"
proof -
  have f: "sum_list (filter P (map g xs)) = (\<Sum>x\<leftarrow>xs. if P (g x) then g x else (0::real))"
    for P g and xs :: "real list"
    by (induction xs) auto
  show ?thesis
    using assms
    by (simp add: estimate_volume_changes_char dict_get_map_entries estimate_period_def
        Let_def nd_map_def f)
qed

theorem C5_volume_witness:
  "is_dict [(''2023-01-15_to_2023-02-10'', removal_example)] \<and>
   dict_get [(''2023-01-15_to_2023-02-10'', removal_example)] ''2023-01-15_to_2023-02-10''
     = Some removal_example \<and>
   dict_get (snd (estimate_volume_changes [(''2023-01-15_to_2023-02-10'', removal_example)] 100))
       ''2023-01-15_to_2023-02-10''
     = Some \<lparr>material_removed_m3 = 200, material_added_m3 = 0, net_change_m3 = - 200\<rparr>"
  using C5_volume[of "[(''2023-01-15_to_2023-02-10'', removal_example)]"
      "''2023-01-15_to_2023-02-10''" removal_example 100]
  by (simp add: is_dict_def dict_get_def removal_example_def)

text \<open>
  C6. For every collection of at least two rasters (none of them without pixels, the
  date keys all of one length as ISO dates are), the change detector walks the date
  keys in ascending order: the keys of its result, in insertion order, are
  \<open>"{date1}_to_{date2}"\<close> for the adjacent pairs of the sorted keys whose arrays have
  the same shape, in that order. For the dates 2023-03-01, 2023-01-15 and 2023-02-10
  the keys are \<open>2023-01-15_to_2023-02-10\<close> and then \<open>2023-02-10_to_2023-03-01\<close>.
\<close>

theorem C6_sorted_pairs:
  assumes "is_dict image_dict" and "2 \<le> length image_dict"
      and "nonempty_rasters image_dict"
      and "list_all (\<lambda>k. length k = n) (dict_keys image_dict)"
  shows "\<exists>out results.
           compare_images to_float image_dict = (out, Inr (Some results)) \<and>
           sorted (sort (dict_keys image_dict)) \<and>
           set (sort (dict_keys image_dict)) = set (dict_keys image_dict) \<and>
           dict_keys results =
             map (\<lambda>(a, b). a @ ''_to_'' @ b)
               (filter (same_shape image_dict) (adjacent_pairs (sort (dict_keys image_dict)))) \<and>
           map (\<lambda>(k, r). (date1 r, date2 r)) results =
             filter (same_shape image_dict) (adjacent_pairs (sort (dict_keys image_dict)))"
proof -
  let ?ps = "adjacent_pairs (sort (dict_keys image_dict))"
  let ?kvs = "List.map_filter (pair_entry to_float image_dict) ?ps"
  have f: "filter (\<lambda>p. change_of to_float image_dict p \<noteq> None) ?ps
      = filter (same_shape image_dict) ?ps"
  proof (rule filter_cong[OF refl])
    fix p assume p: "p \<in> set ?ps"
    obtain a b where ab: "p = (a, b)" by (cases p)
    from p set_adjacent_pairs[of a b "sort (dict_keys image_dict)"]
    have "a \<in> set (dict_keys image_dict)" "b \<in> set (dict_keys image_dict)"
      by (simp_all add: ab)
    from change_of_same_shape[OF assms(3) this] show
      "(change_of to_float image_dict p \<noteq> None) = same_shape image_dict p"
      by (simp add: ab)
  qed
  have k1: "map fst ?kvs = map (\<lambda>(a, b). period_key a b) (filter (same_shape image_dict) ?ps)"
    by (simp only: keys_map_filter f)
  have k2: "dict_keys ?kvs = map fst ?kvs"
    by (simp only: dict_keys_def)
  have k3: "(\<lambda>(a, b). period_key a b) = (\<lambda>(a, b). a @ ''_to_'' @ b)"
    by (simp add: period_key_def)
  have keys: "dict_keys ?kvs =
      map (\<lambda>(a, b). a @ ''_to_'' @ b) (filter (same_shape image_dict) ?ps)"
    by (simp only: k2 k1 k3)
  have dates: "map (\<lambda>(k, r). (date1 r, date2 r)) ?kvs = filter (same_shape image_dict) ?ps"
    by (simp only: dates_map_filter f)
  have "sorted (sort (dict_keys image_dict))"
    "set (sort (dict_keys image_dict)) = set (dict_keys image_dict)"
    by simp_all
  with keys dates compare_images_valid(1)[OF assms, of to_float] show ?thesis
    by blast
qed

theorem C6_sorted_pairs_witness:
  "is_dict three_dates \<and> 2 \<le> length three_dates \<and> nonempty_rasters three_dates \<and>
   list_all (\<lambda>k. length k = 10) (dict_keys three_dates) \<and>
   dict_keys three_dates = [''2023-03-01'', ''2023-01-15'', ''2023-02-10''] \<and>
   result_keys (compare_images real_of_int three_dates) =
     Some [''2023-01-15_to_2023-02-10'', ''2023-02-10_to_2023-03-01'']"
proof -
  have h1: "is_dict three_dates"
    by (simp add: is_dict_def three_dates_def)
  have h2: "2 \<le> length three_dates"
    by (simp add: three_dates_def)
  have h3: "nonempty_rasters three_dates"
    by (simp add: nonempty_rasters_def three_dates_def one_pixel_def)
  have h4: "list_all (\<lambda>k. length k = 10) (dict_keys three_dates)"
    by (simp add: three_dates_def dict_keys_def)
  have ks: "dict_keys three_dates = [''2023-03-01'', ''2023-01-15'', ''2023-02-10'']"
    by (simp add: three_dates_def dict_keys_def)
  from C6_sorted_pairs[OF h1 h2 h3 h4, of real_of_int] obtain out results where
    run: "compare_images real_of_int three_dates = (out, Inr (Some results))" and
    keys: "dict_keys results =
             map (\<lambda>(a, b). a @ ''_to_'' @ b)
               (filter (same_shape three_dates) (adjacent_pairs (sort (dict_keys three_dates))))"
    by blast
  have "sort (dict_keys three_dates) = [''2023-01-15'', ''2023-02-10'', ''2023-03-01'']"
    by (simp add: ks)
  with keys have "dict_keys results = [''2023-01-15_to_2023-02-10'', ''2023-02-10_to_2023-03-01'']"
    by (simp add: same_shape_def three_dates_def dict_get_def one_pixel_def)
  with run have "result_keys (compare_images real_of_int three_dates) =
      Some [''2023-01-15_to_2023-02-10'', ''2023-02-10_to_2023-03-01'']"
    by (simp add: result_keys_def)
  with h1 h2 h3 h4 ks show ?thesis
    by blast
qed

text \<open>
  C7. For every change result, \<open>percentage_change\<close> is, element by element,
  \<open>difference / (earlier + 1e-10) * 100\<close>, a finite number unless the divisor
  \<open>earlier + 1e-10\<close> is zero; where the earlier value is exactly zero the divisor is
  \<open>1e-10\<close> and the quotient is finite. A pixel with earlier value \<open>0\<close> and later value
  \<open>5\<close> has difference \<open>5\<close> and percentage change \<open>5 / 1e-10 * 100\<close>, which is
  \<open>5000000000000\<close>.
\<close>

theorem C7_percentage_change:
  assumes "compare_images to_float image_dict = (out, Inr (Some results))"
      and "(k, r) \<in> set results"
      and "wf_rasters image_dict"
  shows "\<exists>e1 e2. dict_get image_dict (date1 r) = Some e1 \<and>
           dict_get image_dict (date2 r) = Some e2 \<and>
           shape (percentage_change r) = shape (data e1) \<and>
           length (elems (percentage_change r)) = prod_list (shape (data e1)) \<and>
           (\<forall>i<prod_list (shape (data e1)).
              elems (percentage_change r) ! i =
                (if to_float (elems (data e1) ! i) + 1 / 10 ^ 10 = 0 then None
                 else Some (elems (difference r) ! i
                              / (to_float (elems (data e1) ! i) + 1 / 10 ^ 10) * 100)) \<and>
              (to_float (elems (data e1) ! i) = 0 \<longrightarrow>
                 elems (percentage_change r) ! i =
                   Some (elems (difference r) ! i / (1 / 10 ^ 10) * 100)))"
proof -
  from result_images[OF assms(1,2)] obtain e1 e2 where
    e1: "dict_get image_dict (date1 r) = Some e1" and
    e2: "dict_get image_dict (date2 r) = Some e2" and
    sh: "shape (data e1) = shape (data e2)" and
    cp: "compare_pair to_float (date1 r) (date2 r) (data e1) (data e2) = Some r"
    by blast
  let ?n = "prod_list (shape (data e1))"
  have l1: "length (elems (data e1)) = ?n"
    using wf_rasters_get[OF assms(3) e1] by simp
  have l2: "length (elems (data e2)) = ?n"
    using wf_rasters_get[OF assms(3) e2] sh by simp
  note facts = compare_pair_SomeD[OF cp]
  have ld: "length (elems (difference r)) = ?n"
    by (simp add: facts(3) l1 l2)
  have lp: "length (elems (percentage_change r)) = ?n"
    by (simp add: facts(5) ld l1)
  have sp: "shape (percentage_change r) = shape (data e1)"
    by (simp add: facts(5) sh)
  have pv: "elems (percentage_change r) ! i =
      map_option (\<lambda>q. q * 100)
        (float_div (elems (difference r) ! i) (to_float (elems (data e1) ! i) + epsilon))"
    if "i < ?n" for i
    using that ld l1 by (simp add: facts(5))
  have "\<forall>i<?n.
      elems (percentage_change r) ! i =
        (if to_float (elems (data e1) ! i) + 1 / 10 ^ 10 = 0 then None
         else Some (elems (difference r) ! i
                      / (to_float (elems (data e1) ! i) + 1 / 10 ^ 10) * 100)) \<and>
      (to_float (elems (data e1) ! i) = 0 \<longrightarrow>
         elems (percentage_change r) ! i =
           Some (elems (difference r) ! i / (1 / 10 ^ 10) * 100))"
    by (simp add: pv float_div_def epsilon_def)
  with e1 e2 sp lp show ?thesis
    by blast
qed

theorem C7_percentage_change_witness:
  "compare_images real_of_int guard_example =
     (guard_output, Inr (Some [(''2023-01-15_to_2023-02-10'', guard_result)])) \<and>
   wf_rasters guard_example \<and>
   dict_get guard_example (date1 guard_result) = Some (one_pixel 0) \<and>
   real_of_int (elems (data (one_pixel 0)) ! 0) = 0 \<and>
   elems (difference guard_result) ! 0 = 5 \<and>
   elems (percentage_change guard_result) ! 0 = Some (5 / (1 / 10 ^ 10) * 100) \<and>
   elems (percentage_change guard_result) ! 0 = Some 5000000000000"
proof -
  have run: "compare_images real_of_int guard_example =
     (guard_output, Inr (Some [(''2023-01-15_to_2023-02-10'', guard_result)]))"
    by (simp add: compare_images_def guard_example_def guard_output_def guard_result_def
        one_pixel_def dict_keys_def dict_get_def compare_pair_def Let_def nd_map2_def nd_map_def
        astype_def np_abs_def np_sum_def np_mean_def np_max_def float_div_def epsilon_def
        period_key_def)
  have wf: "wf_rasters guard_example"
    by (simp add: wf_rasters_def guard_example_def one_pixel_def wf_ndarray_def)
  have mem: "(''2023-01-15_to_2023-02-10'', guard_result)
      \<in> set [(''2023-01-15_to_2023-02-10'', guard_result)]"
    by simp
  from C7_percentage_change[OF run mem wf] run wf show ?thesis
    by (simp add: guard_result_def guard_example_def dict_get_def one_pixel_def)
qed

text \<open>
  C8. For every collection of at least two rasters (none of them without pixels, the
  date keys all of one length), the run returns a result, and for every adjacent pair
  of the sorted dates: when the two arrays differ in shape, the result has no entry for
  the pair and the warning with the two dates and the two lines with each shape are
  printed; when the shapes are equal, the result holds the pair's change result. A
  mismatch ends nothing but its own iteration.
\<close>

theorem C8_shape_mismatch:
  assumes "is_dict image_dict" and "2 \<le> length image_dict"
      and "nonempty_rasters image_dict"
      and "list_all (\<lambda>k. length k = n) (dict_keys image_dict)"
      and "(a, b) \<in> set (adjacent_pairs (sort (dict_keys image_dict)))"
      and "dict_get image_dict a = Some e1" and "dict_get image_dict b = Some e2"
  shows "\<exists>out results.
           compare_images to_float image_dict = (out, Inr (Some results)) \<and>
           (if shape (data e1) \<noteq> shape (data e2)
            then dict_get results (period_key a b) = None \<and>
                 WarnDifferentShapes a b \<in> set out \<and>
                 ShapeOf a (shape (data e1)) \<in> set out \<and>
                 ShapeOf b (shape (data e2)) \<in> set out
            else \<exists>r. dict_get results (period_key a b) = Some r \<and>
                     compare_pair to_float a b (data e1) (data e2) = Some r)"
proof -
  let ?ps = "adjacent_pairs (sort (dict_keys image_dict))"
  let ?kvs = "List.map_filter (pair_entry to_float image_dict) ?ps"
  let ?out = "concat (map (pair_msgs to_float image_dict) ?ps)"
  note run = compare_images_valid(1)[OF assms(1-4), of to_float]
  note dk = compare_images_valid(2)[OF assms(1-4), of to_float]
  have inj: "inj_on (\<lambda>(a, b). period_key a b) (set ?ps)"
    using assms(4) by (intro period_key_inj_on[of n]) (simp add: list_all_iff)
  have msgs: "set (pair_msgs to_float image_dict (a, b)) \<subseteq> set ?out"
    using assms(5) by auto
  show ?thesis
  proof (cases "shape (data e1) = shape (data e2)")
    case False
    then have none: "change_of to_float image_dict (a, b) = None"
      by (simp add: change_of_def assms(6,7))
    have "period_key a b \<notin> set (map fst ?kvs)"
    proof
      assume "period_key a b \<in> set (map fst ?kvs)"
      then obtain p where p: "p \<in> set ?ps" "change_of to_float image_dict p \<noteq> None"
        "period_key a b = (case p of (a, b) \<Rightarrow> period_key a b)"
        by (auto simp: keys_map_filter)
      from inj_onD[OF inj _ assms(5) p(1)] p(3) have "p = (a, b)" by simp
      with p(2) none show False by simp
    qed
    then have "dict_get ?kvs (period_key a b) = None"
      by (simp add: dict_get_def map_of_eq_None_iff)
    moreover from False msgs have
      "WarnDifferentShapes a b \<in> set ?out" "ShapeOf a (shape (data e1)) \<in> set ?out"
      "ShapeOf b (shape (data e2)) \<in> set ?out"
      by (simp_all add: pair_msgs_def assms(6,7))
    ultimately show ?thesis
      using run False by simp
  next
    case True
    from assms(3,6,7) have "elems (data e1) \<noteq> []" "elems (data e2) \<noteq> []"
      by (auto simp: nonempty_rasters_def list_all_iff dict_get_def dest!: map_of_SomeD)
    from compare_pair_Some[OF this, of to_float a b] obtain r where
      r: "compare_pair to_float a b (data e1) (data e2) = Some r" by blast
    with True have "pair_entry to_float image_dict (a, b) = Some (period_key a b, r)"
      by (simp add: pair_entry_def change_of_def assms(6,7))
    with assms(5) have "(period_key a b, r) \<in> set ?kvs"
      by (force simp: List.map_filter_def)
    with dk have "dict_get ?kvs (period_key a b) = Some r"
      by (simp add: dict_get_def)
    with r run True show ?thesis by simp
  qed
qed

theorem C8_shape_mismatch_witness:
  "is_dict mismatch_example \<and> 2 \<le> length mismatch_example \<and>
   nonempty_rasters mismatch_example \<and>
   list_all (\<lambda>k. length k = 10) (dict_keys mismatch_example) \<and>
   (''2023-01-15'', ''2023-02-10'') \<in> set (adjacent_pairs (sort (dict_keys mismatch_example))) \<and>
   dict_get mismatch_example ''2023-01-15'' = Some (band 2 [1, 2]) \<and>
   dict_get mismatch_example ''2023-02-10'' = Some (band 3 [1, 2, 3]) \<and>
   shape (data (band 2 [1, 2])) \<noteq> shape (data (band 3 [1, 2, 3])) \<and>
   result_keys (compare_images real_of_int mismatch_example) =
     Some [''2023-02-10_to_2023-03-01''] \<and>
   fst (compare_images real_of_int mismatch_example) =
     [WarnDifferentShapes ''2023-01-15'' ''2023-02-10'', ShapeOf ''2023-01-15'' [1, 2, 1],
      ShapeOf ''2023-02-10'' [1, 3, 1], ComparisonFromTo ''2023-02-10'' ''2023-03-01'',
      TotalAbsoluteChange 6, MeanAbsoluteChange 2, MaximumAbsoluteChange 3]"
proof -
  have h1: "is_dict mismatch_example"
    by (simp add: is_dict_def mismatch_example_def)
  have h2: "2 \<le> length mismatch_example"
    by (simp add: mismatch_example_def)
  have h3: "nonempty_rasters mismatch_example"
    by (simp add: nonempty_rasters_def mismatch_example_def band_def)
  have h4: "list_all (\<lambda>k. length k = 10) (dict_keys mismatch_example)"
    by (simp add: mismatch_example_def dict_keys_def)
  have h5: "(''2023-01-15'', ''2023-02-10'')
      \<in> set (adjacent_pairs (sort (dict_keys mismatch_example)))"
    by (simp add: mismatch_example_def dict_keys_def)
  have h6: "dict_get mismatch_example ''2023-01-15'' = Some (band 2 [1, 2])"
    by (simp add: mismatch_example_def dict_get_def)
  have h7: "dict_get mismatch_example ''2023-02-10'' = Some (band 3 [1, 2, 3])"
    by (simp add: mismatch_example_def dict_get_def)
  have ne: "shape (data (band 2 [1, 2])) \<noteq> shape (data (band 3 [1, 2, 3]))"
    by (simp add: band_def)
  have run: "compare_images real_of_int mismatch_example =
     ([WarnDifferentShapes ''2023-01-15'' ''2023-02-10'', ShapeOf ''2023-01-15'' [1, 2, 1],
       ShapeOf ''2023-02-10'' [1, 3, 1], ComparisonFromTo ''2023-02-10'' ''2023-03-01'',
       TotalAbsoluteChange 6, MeanAbsoluteChange 2, MaximumAbsoluteChange 3],
      Inr (Some [(''2023-02-10_to_2023-03-01'',
        the (compare_pair real_of_int ''2023-02-10'' ''2023-03-01''
               (data (band 3 [1, 2, 3])) (data (band 3 [4, 4, 4]))))]))"
    by (simp add: compare_images_def mismatch_example_def band_def
        dict_keys_def dict_get_def compare_pair_def Let_def nd_map2_def nd_map_def
        astype_def np_abs_def np_sum_def np_mean_def np_max_def float_div_def epsilon_def
        period_key_def)
  from C8_shape_mismatch[OF h1 h2 h3 h4 h5 h6 h7, of real_of_int] run h1 h2 h3 h4 h5 h6 h7 ne
  show ?thesis
    by (simp add: result_keys_def dict_keys_def)
qed

text \<open>
  C9. The change detector is deterministic: what it returns and prints is a function
  of the collection, and of its entries only, not of the order in which they were
  inserted. Two runs on collections with the same entries give identical result
  mappings, with the same keys in the same order and the same arrays and summaries.
\<close>

theorem C9_deterministic:
  assumes "is_dict d1" and "is_dict d2" and "set d1 = set d2"
  shows "compare_images to_float d1 = compare_images to_float d2"
proof -
  from assms have len: "length d1 = length d2"
    by (metis is_dict_def distinct_card distinct_map)
  from assms have "map_of d1 = map_of d2"
    by (simp add: is_dict_def map_of_inject_set)
  then have get: "dict_get d1 = dict_get d2"
    by (simp add: fun_eq_iff dict_get_def)
  from assms(3) have "set (dict_keys d1) = set (dict_keys d2)"
    by (simp add: dict_keys_def)
  with assms(1,2) have keys: "sort (dict_keys d1) = sort (dict_keys d2)"
    by (intro sorted_distinct_set_unique) (simp_all add: is_dict_def dict_keys_def)
  show ?thesis
    by (simp add: compare_images_def len keys compare_loop_cong[OF get])
qed

theorem C9_deterministic_witness:
  "is_dict guard_example \<and> is_dict (rev guard_example) \<and>
   set guard_example = set (rev guard_example) \<and>
   compare_images real_of_int guard_example = compare_images real_of_int (rev guard_example) \<and>
   guard_example \<noteq> rev guard_example"
proof -
  have d1: "is_dict guard_example"
    by (simp add: is_dict_def guard_example_def)
  have d2: "is_dict (rev guard_example)"
    using d1 by (simp add: is_dict_def rev_map [symmetric])
  have s: "set guard_example = set (rev guard_example)"
    by simp
  have ne: "guard_example \<noteq> rev guard_example"
    by (simp add: guard_example_def)
  from C9_deterministic[OF d1 d2 s] d1 d2 s ne show ?thesis
    by blast
qed


text \<open>
  C10 (as the code has it). For every period of the results and every pixel area, with
  any floating-point arithmetic whose sums of numbers of one sign keep that sign, the
  estimate stored for the period has \<open>material_removed \<ge> 0\<close> and
  \<open>material_added \<ge> 0\<close>, and its \<open>net_change\<close> is the floating-point difference
  \<open>material_added - material_removed\<close>. In exact arithmetic that difference is the
  pixel area times the sum of all entries of the signed difference array.
\<close>

theorem C10_volume_signs:
  assumes "is_dict results" and "dict_get results period = Some dat"
      and "sign_preserving ops"
  shows "\<exists>v. dict_get (snd (estimate_volume_changes_float ops results pixel_area)) period = Some v \<and>
             0 \<le> material_removed_m3 v \<and> 0 \<le> material_added_m3 v \<and>
             net_change_m3 v = fl_sub ops (material_added_m3 v) (material_removed_m3 v) \<and>
             (ops = exact_ops \<longrightarrow>
                net_change_m3 v = pixel_area * sum_list (elems (difference dat)))"
proof -
  let ?vs = "map (\<lambda>x. fl_mul ops x pixel_area) (elems (difference dat))"
  let ?v = "estimate_period_float ops pixel_area dat"
  have get: "dict_get (snd (estimate_volume_changes_float ops results pixel_area)) period = Some ?v"
    using assms(1,2) by (simp add: estimate_volume_changes_float_char dict_get_map_entries)
  have "list_all (\<lambda>x. x \<le> 0) (filter (\<lambda>v. v < 0) ?vs)"
    "list_all (\<lambda>x. 0 \<le> x) (filter (\<lambda>v. 0 < v) ?vs)"
    by (simp_all add: list_all_iff)
  with assms(3) have "fl_sum ops (filter (\<lambda>v. v < 0) ?vs) \<le> 0"
    "0 \<le> fl_sum ops (filter (\<lambda>v. 0 < v) ?vs)"
    by (simp_all add: sign_preserving_def)
  then have signs: "0 \<le> material_removed_m3 ?v" "0 \<le> material_added_m3 ?v"
    by (simp_all add: estimate_period_float_def Let_def nd_map_def)
  have net: "net_change_m3 ?v = fl_sub ops (material_added_m3 ?v) (material_removed_m3 ?v)"
    by (simp add: estimate_period_float_def Let_def)
  have exact: "net_change_m3 ?v = pixel_area * sum_list (elems (difference dat))"
    if "ops = exact_ops"
  proof -
    let ?ws = "map (\<lambda>x. x * pixel_area) (elems (difference dat))"
    have "sum_list ?ws = pixel_area * sum_list (elems (difference dat))"
      by (simp add: sum_list_mult_const mult.commute)
    moreover have "sum_list (filter (\<lambda>v. 0 < v) ?ws) - - sum_list (filter (\<lambda>v. v < 0) ?ws)
        = sum_list ?ws"
      using sum_list_neg_pos[of ?ws] by simp
    ultimately show ?thesis
      by (simp add: that estimate_period_float_def exact_ops_def Let_def nd_map_def)
  qed
  from get signs net exact show ?thesis
    by blast
qed

theorem C10_volume_signs_witness:
  "is_dict [(''2023-01-15_to_2023-02-10'', rounding_example)] \<and>
   dict_get [(''2023-01-15_to_2023-02-10'', rounding_example)] ''2023-01-15_to_2023-02-10''
     = Some rounding_example \<and>
   sign_preserving binary64_ops \<and>
   dict_get (snd (estimate_volume_changes_float binary64_ops
                    [(''2023-01-15_to_2023-02-10'', rounding_example)] 100))
       ''2023-01-15_to_2023-02-10''
     = Some \<lparr>material_removed_m3 = 500, material_added_m3 = 10, net_change_m3 = - 490\<rparr>"
proof -
  have h1: "is_dict [(''2023-01-15_to_2023-02-10'', rounding_example)]"
    by (simp add: is_dict_def)
  have h2: "dict_get [(''2023-01-15_to_2023-02-10'', rounding_example)]
      ''2023-01-15_to_2023-02-10'' = Some rounding_example"
    by (simp add: dict_get_def)
  note h3 = sign_preserving_binary64
  from C10_volume_signs[OF h1 h2 h3, of 100] rounding_estimate h1 h2 h3 show ?thesis
    by (simp add: estimate_volume_changes_float_def dict_get_def)
qed

text \<open>
  C10 as stated fails in binary64: for the differences \<open>-5\<close> and \<open>0.1\<close> and the pixel
  area \<open>100\<close> the products are \<open>-500\<close> and \<open>10\<close> and \<open>net_change\<close> is \<open>-490\<close>,
  while the pixel area times the sum of the differences is
  \<open>-490.00000000000006\<close> when computed in binary64 and just above \<open>-490\<close> when
  computed exactly.
\<close>

theorem C10_counterexample:
  "dict_get (snd (estimate_volume_changes_float binary64_ops
                    [(''2023-01-15_to_2023-02-10'', rounding_example)] 100))
       ''2023-01-15_to_2023-02-10''
     = Some \<lparr>material_removed_m3 = 500, material_added_m3 = 10, net_change_m3 = - 490\<rparr> \<and>
   net_change_m3 (estimate_period_float binary64_ops 100 rounding_example)
     \<noteq> 100 * sum_list (elems (difference rounding_example)) \<and>
   net_change_m3 (estimate_period_float binary64_ops 100 rounding_example)
     \<noteq> fl_mul binary64_ops 100 (fl_sum binary64_ops (elems (difference rounding_example))) \<and>
   100 * sum_list (elems (difference rounding_example))
     = - 4413527634823086075 / 9007199254740992 \<and>
   fl_mul binary64_ops 100 (fl_sum binary64_ops (elems (difference rounding_example)))
     = - 8620171161763841 / 17592186044416"
proof -
  have exact: "100 * sum_list (elems (difference rounding_example))
      = - 4413527634823086075 / 9007199254740992"
    by (simp add: rounding_example_def tenth_def)
  have rounded: "fl_mul binary64_ops 100 (fl_sum binary64_ops (elems (difference rounding_example)))
      = - 8620171161763841 / 17592186044416"
    by (simp add: rounding_example_def tenth_def binary64_ops_def round_double_def binade_def
        round_half_even_def Let_def compute_bitlen)
  from rounding_estimate exact rounded show ?thesis
    by (simp add: estimate_volume_changes_float_def dict_get_def)
qed

end
